theory Spec2Isabelle
  imports Complex_Main "HOL-Library.AList"
begin

section \<open>Syntax nodes of the parser front-end\<close>

text \<open>
  The listener of \<^verbatim>\<open>process.py\<close> reads a syntax node only through its text, its ordered
  children and the source position of its first and last token. A node is modelled by
  exactly these attributes: \<open>getText\<close>, \<open>kids\<close> (the children), \<open>start_line\<close> and
  \<open>start_column\<close> (\<^verbatim>\<open>ctx.start.line\<close>, \<^verbatim>\<open>ctx.start.column\<close>), \<open>stop_line\<close>
  (\<^verbatim>\<open>ctx.stop.line\<close>) and \<open>depth\<close> (\<^verbatim>\<open>ctx.depth()\<close>).
\<close>

datatype node =
  Node (getText: string) (kids: "node list") (start_line: int) (start_column: int)
    (stop_line: int) (depth: int)

text \<open>
  Exceptions of the Python program. \<open>AttributeError\<close> is what reading an attribute of
  \<^verbatim>\<open>None\<close> raises (a child, an ancestor or a qualified name that does not exist),
  \<open>KeyError\<close> is a dictionary access at a missing key, and \<open>PyException\<close> is
  \<^verbatim>\<open>raise Exception(msg)\<close>.
\<close>

datatype error = AttributeError | KeyError | PyException string

definition getChildCount :: "node \<Rightarrow> nat" where
  "getChildCount ctx = length (kids ctx)"

text \<open>\<^verbatim>\<open>ctx.getChild(i)\<close> is \<^verbatim>\<open>None\<close> past the last child; every use in the program
  reads an attribute of the result at once, which raises on \<^verbatim>\<open>None\<close>.\<close>

definition getChild :: "node \<Rightarrow> nat \<Rightarrow> error + node" where
  "getChild ctx i = (if i < length (kids ctx) then Inr (kids ctx ! i) else Inl AttributeError)"

section \<open>Program model\<close>

record ParmType =
  p_name :: string
  p_type :: string

record FieldType =
  f_type :: string
  f_define :: string

record Statement =
  s_value :: string
  s_line :: int
  s_column :: int

text \<open>
  Python objects are shared by reference: a \<^verbatim>\<open>JavaClass\<close> is reachable from the
  \<^verbatim>\<open>classes\<close> dictionary of the file model and from the listener's \<^verbatim>\<open>_deep_class\<close>
  dictionary, a \<^verbatim>\<open>JavaMethod\<close> from its class and from \<^verbatim>\<open>_current_method\<close>. The
  model keeps the objects in two stores (lists, a reference is an index, a new object is
  appended) and every dictionary as an association list in insertion order
  (\<open>AList.update\<close> replaces the value of a key in place and appends a new key, as a
  Python dictionary does).
\<close>

record JavaMethod =
  m_name :: string
  m_start :: int
  m_stop :: int
  m_depth :: int
  m_parameters :: "ParmType list"
  m_return_type :: string
  m_statements :: "Statement list"

text \<open>
  The attribute \<^verbatim>\<open>implements\<close> holds either a string or a list of strings:
  \<^verbatim>\<open>parse_class_block\<close> initialises it with the string \<^verbatim>\<open>''\<close> and only its
  \<^verbatim>\<open>implements\<close> branches assign the list of \<^verbatim>\<open>parse_implements_block\<close>.
\<close>

datatype str_or_list = Str string | StrList "string list"

record JavaClass =
  c_name :: string
  c_extends :: string
  c_implements :: str_or_list
  c_fields :: "FieldType list"
  c_methods :: "(string \<times> nat) list"
  c_statements :: "Statement list"

record JavaFileAst =
  a_package_name :: string
  a_imports :: "string list"
  a_classes :: "(string \<times> nat) list"

datatype level = INFO | WARNING | ERROR

type_synonym log_record = "level \<times> string"

text \<open>\<^verbatim>\<open>JavaClass(name=..., extends=..., implements=...)\<close>: the constructor starts from
  empty containers and sets the three keyword attributes.\<close>

definition new_JavaClass :: "string \<Rightarrow> string \<Rightarrow> str_or_list \<Rightarrow> JavaClass" where
  "new_JavaClass name extends implements =
     \<lparr>c_name = name, c_extends = extends, c_implements = implements,
      c_fields = [], c_methods = [], c_statements = []\<rparr>"

definition new_JavaFileAst :: JavaFileAst where
  "new_JavaFileAst = \<lparr>a_package_name = [], a_imports = [], a_classes = []\<rparr>"

section \<open>The listener\<close>

text \<open>
  The state of a \<^verbatim>\<open>CollectListener\<close>: the two object stores, \<^verbatim>\<open>_ast\<close>,
  \<^verbatim>\<open>_deep_class\<close>, \<^verbatim>\<open>_deep\<close>, \<^verbatim>\<open>_current_method\<close>, and the records the module's
  logger has emitted at level INFO or above (\<^verbatim>\<open>print_stage\<close> logs at DEBUG; of a
  \<^verbatim>\<open>print_stage\<close> call the model keeps the evaluation of its argument, which can raise).
\<close>

record listener =
  class_objs :: "JavaClass list"
  method_objs :: "JavaMethod list"
  ast :: JavaFileAst
  deep_class :: "(int \<times> nat) list"
  deep :: int
  current_method :: "nat option"
  log :: "log_record list"

definition CollectListener :: "log_record list \<Rightarrow> listener" where
  "CollectListener lg =
     \<lparr>class_objs = [], method_objs = [], ast = new_JavaFileAst, deep_class = [], deep = 0,
      current_method = None, log = lg\<rparr>"

subsection \<open>Structural decoders\<close>

text \<open>The loop \<^verbatim>\<open>for i in range(n): if i % 2 == 0: result.append(ctx.getChild(i).getText())\<close>.\<close>

fun implements_loop :: "node \<Rightarrow> nat list \<Rightarrow> string list \<Rightarrow> error + string list" where
  "implements_loop ctx [] result = Inr result"
| "implements_loop ctx (i # rest) result =
     (if i mod 2 = 0 then
        (case getChild ctx i of
           Inl e \<Rightarrow> Inl e
         | Inr c \<Rightarrow> implements_loop ctx rest (result @ [getText c]))
      else implements_loop ctx rest result)"

definition parse_implements_block :: "node \<Rightarrow> error + string list" where
  "parse_implements_block ctx =
     (let implements_child_count = getChildCount ctx in
      if implements_child_count = 1 then
        (case getChild ctx 0 of Inl e \<Rightarrow> Inl e | Inr c \<Rightarrow> Inr [getText c])
      else if implements_child_count > 1 then
        implements_loop ctx [0..<implements_child_count] []
      else Inr [])"

text \<open>\<^verbatim>\<open>ctx.getChild(i).getText()\<close> and \<^verbatim>\<open>ctx.getChild(i).getChild(j).getText()\<close>.\<close>

definition child_text :: "node \<Rightarrow> nat \<Rightarrow> error + string" where
  "child_text ctx i = (case getChild ctx i of Inl e \<Rightarrow> Inl e | Inr c \<Rightarrow> Inr (getText c))"

definition grandchild_text :: "node \<Rightarrow> nat \<Rightarrow> nat \<Rightarrow> error + string" where
  "grandchild_text ctx i j =
     (case getChild ctx i of Inl e \<Rightarrow> Inl e | Inr c \<Rightarrow> child_text c j)"

text \<open>
  The branch of \<^verbatim>\<open>parse_class_block\<close> on the child count, up to the final check of
  the class name. The three results start as \<^verbatim>\<open>''\<close>.
\<close>

definition class_block_branch ::
  "listener \<Rightarrow> node \<Rightarrow> error + (string \<times> string \<times> str_or_list)" where
  "class_block_branch self ctx =
     (let child_count = getChildCount ctx in
      if child_count = 7 then
        (case child_text ctx 1 of Inl e \<Rightarrow> Inl e | Inr class_name \<Rightarrow>
         case grandchild_text ctx 3 0 of Inl e \<Rightarrow> Inl e | Inr extends \<Rightarrow>
         case getChild ctx 5 of Inl e \<Rightarrow> Inl e | Inr c5 \<Rightarrow>
         case parse_implements_block c5 of Inl e \<Rightarrow> Inl e | Inr implements \<Rightarrow>
           Inr (class_name, extends, StrList implements))
      else if child_count = 5 then
        (case child_text ctx 1 of Inl e \<Rightarrow> Inl e | Inr class_name \<Rightarrow>
         case child_text ctx 2 of Inl e \<Rightarrow> Inl e | Inr c3 \<Rightarrow>
           if c3 = ''implements'' then
             (case getChild ctx 3 of Inl e \<Rightarrow> Inl e | Inr c \<Rightarrow>
              case parse_implements_block c of Inl e \<Rightarrow> Inl e | Inr implements \<Rightarrow>
                Inr (class_name, [], StrList implements))
           else if c3 = ''extends'' then
             (case grandchild_text ctx 3 0 of Inl e \<Rightarrow> Inl e | Inr extends \<Rightarrow>
                Inr (class_name, extends, Str []))
           else Inr (class_name, [], Str []))
      else if child_count = 3 then
        (case child_text ctx 1 of Inl e \<Rightarrow> Inl e | Inr class_name \<Rightarrow>
           Inr (class_name, [], Str []))
      else if child_count = 2 then
        (case map_of (deep_class self) (deep self) of
           None \<Rightarrow> Inl KeyError
         | Some cur \<Rightarrow> Inr (c_name (class_objs self ! cur), [], Str []))
      else Inr ([], [], Str []))"

definition parse_class_block ::
  "listener \<Rightarrow> node \<Rightarrow> error + (string \<times> string \<times> str_or_list)" where
  "parse_class_block self ctx =
     (case child_text ctx 1 of Inl e \<Rightarrow> Inl e | Inr _ \<Rightarrow>
      case class_block_branch self ctx of Inl e \<Rightarrow> Inl e
      | Inr (class_name, extends, implements) \<Rightarrow>
          if class_name = [] then Inl (PyException ''Class name is not found'')
          else Inr (class_name, extends, implements))"

text \<open>One parameter: \<^verbatim>\<open>ctx.getChild(1).getChild(i).getChild(0).getText()\<close> is its type,
  \<^verbatim>\<open>...getChild(1).getText()\<close> its name.\<close>

definition parse_param :: "node \<Rightarrow> nat \<Rightarrow> error + ParmType" where
  "parse_param ctx i =
     (case getChild ctx 1 of Inl e \<Rightarrow> Inl e | Inr ps \<Rightarrow>
      case grandchild_text ps i 0 of Inl e \<Rightarrow> Inl e | Inr param_type \<Rightarrow>
      case grandchild_text ps i 1 of Inl e \<Rightarrow> Inl e | Inr param_name \<Rightarrow>
        Inr \<lparr>p_name = param_name, p_type = param_type\<rparr>)"

fun params_loop :: "node \<Rightarrow> nat list \<Rightarrow> ParmType list \<Rightarrow> error + ParmType list" where
  "params_loop ctx [] result = Inr result"
| "params_loop ctx (i # rest) result =
     (if i mod 2 = 0 then
        (case parse_param ctx i of
           Inl e \<Rightarrow> Inl e
         | Inr p \<Rightarrow> params_loop ctx rest (result @ [p]))
      else params_loop ctx rest result)"

definition parse_method_params_block :: "node \<Rightarrow> error + ParmType list" where
  "parse_method_params_block ctx =
     (let params_exist_check = getChildCount ctx in
      if params_exist_check = 3 then
        (case getChild ctx 1 of Inl e \<Rightarrow> Inl e | Inr ps \<Rightarrow>
         let params_child_count = getChildCount ps in
         if params_child_count = 1 then
           (case parse_param ctx 0 of Inl e \<Rightarrow> Inl e | Inr p \<Rightarrow> Inr [p])
         else if params_child_count > 1 then
           params_loop ctx [0..<params_child_count] []
         else Inr [])
      else Inr [])"

subsection \<open>Notification handlers\<close>

text \<open>
  A handler returns the listener after the notification, or the exception it raises. In
  every handler all reads that can raise come before the first assignment, so a raising
  handler leaves the listener as it was.
\<close>

text \<open>\<^verbatim>\<open>ctx.qualifiedName()\<close> is passed with the notification (\<open>None\<close> when the node has
  no such child).\<close>

definition enterPackageDeclaration :: "listener \<Rightarrow> node \<Rightarrow> node option \<Rightarrow> error + listener" where
  "enterPackageDeclaration self ctx qualifiedName =
     (case qualifiedName of
        None \<Rightarrow> Inl AttributeError
      | Some q \<Rightarrow> Inr (self\<lparr>ast := (ast self)\<lparr>a_package_name := getText q\<rparr>\<rparr>))"

definition exitPackageDeclaration :: "listener \<Rightarrow> node \<Rightarrow> error + listener" where
  "exitPackageDeclaration self ctx = Inr self"

definition enterImportDeclaration :: "listener \<Rightarrow> node \<Rightarrow> node option \<Rightarrow> error + listener" where
  "enterImportDeclaration self ctx qualifiedName =
     (case qualifiedName of
        None \<Rightarrow> Inl AttributeError
      | Some q \<Rightarrow> Inr (self\<lparr>ast := (ast self)\<lparr>a_imports := a_imports (ast self) @ [getText q]\<rparr>\<rparr>))"

definition enterClassDeclaration :: "listener \<Rightarrow> node \<Rightarrow> error + listener" where
  "enterClassDeclaration self ctx =
     (case child_text ctx 1 of Inl e \<Rightarrow> Inl e | Inr _ \<Rightarrow>
      case parse_class_block self ctx of Inl e \<Rightarrow> Inl e
      | Inr (name, extends, implements) \<Rightarrow>
          let self1 = self\<lparr>deep := deep self + 1\<rparr>;
              obj = length (class_objs self1);
              self2 = self1\<lparr>class_objs := class_objs self1 @ [new_JavaClass name extends implements],
                            ast := (ast self1)\<lparr>a_classes := AList.update name obj (a_classes (ast self1))\<rparr>\<rparr>
          in (case map_of (a_classes (ast self2)) name of
                None \<Rightarrow> Inl KeyError
              | Some r \<Rightarrow>
                  Inr (self2\<lparr>deep_class := AList.update (deep self2) r (deep_class self2)\<rparr>)))"

definition exitClassDeclaration :: "listener \<Rightarrow> node \<Rightarrow> error + listener" where
  "exitClassDeclaration self ctx =
     (case child_text ctx 1 of Inl e \<Rightarrow> Inl e | Inr _ \<Rightarrow>
      case map_of (deep_class self) (deep self) of
        None \<Rightarrow> Inl KeyError
      | Some _ \<Rightarrow>
          Inr (self\<lparr>deep_class := AList.delete (deep self) (deep_class self),
                    deep := deep self - 1\<rparr>))"

text \<open>\<^verbatim>\<open>ctx.parentCtx.parentCtx.parentCtx.parentCtx\<close> is passed with the notification
  (\<open>None\<close> when the chain of parents ends before it).\<close>

definition enterFieldDeclaration :: "listener \<Rightarrow> node \<Rightarrow> node option \<Rightarrow> error + listener" where
  "enterFieldDeclaration self ctx ancestor =
     (case ancestor of None \<Rightarrow> Inl AttributeError | Some header \<Rightarrow>
      case parse_class_block self header of Inl e \<Rightarrow> Inl e
      | Inr (class_name, _, _) \<Rightarrow>
      case map_of (deep_class self) (deep self) of None \<Rightarrow> Inl KeyError | Some cur \<Rightarrow>
        let current_class = class_objs self ! cur in
        if class_name \<noteq> c_name current_class then
          Inl (PyException (''Class name is '' @ class_name @ '' is not equal ''
                 @ c_name current_class))
        else
          (case map_of (a_classes (ast self)) (c_name current_class) of
             None \<Rightarrow> Inl KeyError
           | Some r \<Rightarrow>
           case child_text ctx 0 of Inl e \<Rightarrow> Inl e | Inr t \<Rightarrow>
           case child_text ctx 1 of Inl e \<Rightarrow> Inl e | Inr d \<Rightarrow>
             let c = class_objs self ! r in
             Inr (self\<lparr>class_objs := (class_objs self)
                    [r := c\<lparr>c_fields := c_fields c @ [\<lparr>f_type = t, f_define = d\<rparr>]\<rparr>]\<rparr>)))"

definition enterMethodDeclaration :: "listener \<Rightarrow> node \<Rightarrow> error + listener" where
  "enterMethodDeclaration self ctx =
     (case child_text ctx 1 of Inl e \<Rightarrow> Inl e | Inr method_name \<Rightarrow>
      case map_of (deep_class self) (deep self) of None \<Rightarrow> Inl KeyError | Some cur \<Rightarrow>
        let current_class = class_objs self ! cur in
        if map_of (c_methods current_class) method_name = None then
          (case child_text ctx 0 of Inl e \<Rightarrow> Inl e | Inr return_type \<Rightarrow>
           case getChild ctx 2 of Inl e \<Rightarrow> Inl e | Inr c2 \<Rightarrow>
           case parse_method_params_block c2 of Inl e \<Rightarrow> Inl e | Inr parameters \<Rightarrow>
           case map_of (a_classes (ast self)) (c_name current_class) of
             None \<Rightarrow> Inl KeyError
           | Some r \<Rightarrow>
               let m = length (method_objs self);
                   c = class_objs self ! r;
                   self1 = self\<lparr>
                     method_objs := method_objs self @
                       [\<lparr>m_name = method_name, m_start = start_line ctx, m_stop = stop_line ctx,
                         m_depth = depth ctx, m_parameters = parameters,
                         m_return_type = return_type, m_statements = []\<rparr>],
                     class_objs := (class_objs self)
                       [r := c\<lparr>c_methods := AList.update method_name m (c_methods c)\<rparr>]\<rparr>
               in (case map_of (c_methods (class_objs self1 ! r)) method_name of
                     None \<Rightarrow> Inl KeyError
                   | Some m' \<Rightarrow> Inr (self1\<lparr>current_method := Some m'\<rparr>)))
        else
          Inr (self\<lparr>log := log self @
                 [(WARNING, method_name @ '' is a overloading, ignore it in this version.'')]\<rparr>))"

definition exitMethodDeclaration :: "listener \<Rightarrow> node \<Rightarrow> error + listener" where
  "exitMethodDeclaration self ctx =
     (case child_text ctx 1 of Inl e \<Rightarrow> Inl e | Inr _ \<Rightarrow>
        Inr (self\<lparr>current_method := None\<rparr>))"

definition enterMethodCall :: "listener \<Rightarrow> node \<Rightarrow> error + listener" where
  "enterMethodCall self ctx =
     (case child_text ctx 0 of Inl e \<Rightarrow> Inl e | Inr callee \<Rightarrow>
      let statement = \<lparr>s_value = callee, s_line = start_line ctx, s_column = start_column ctx\<rparr> in
      case current_method self of
        None \<Rightarrow>
          (case map_of (deep_class self) (deep self) of None \<Rightarrow> Inl KeyError | Some cur \<Rightarrow>
           let current_class = class_objs self ! cur in
           case map_of (a_classes (ast self)) (c_name current_class) of
             None \<Rightarrow> Inl KeyError
           | Some r \<Rightarrow>
               let c = class_objs self ! r in
               Inr (self\<lparr>class_objs := (class_objs self)
                      [r := c\<lparr>c_statements := c_statements c @ [statement]\<rparr>]\<rparr>))
      | Some m \<Rightarrow>
          let mo = method_objs self ! m in
          Inr (self\<lparr>method_objs := (method_objs self)
                 [m := mo\<lparr>m_statements := m_statements mo @ [statement]\<rparr>]\<rparr>))"

definition enterEnumDeclaration :: "listener \<Rightarrow> node \<Rightarrow> error + listener" where
  "enterEnumDeclaration self ctx = enterClassDeclaration self ctx"

definition exitEnumDeclaration :: "listener \<Rightarrow> node \<Rightarrow> error + listener" where
  "exitEnumDeclaration self ctx = exitClassDeclaration self ctx"

subsection \<open>The notification stream\<close>

text \<open>
  The tree walker calls the listener once per notification, depth first. A notification
  carries the node; a package or import declaration also carries the node's qualified
  name, a field declaration the fourth ancestor of the node.
\<close>

datatype notification =
    EnterPackageDeclaration node "node option"
  | ExitPackageDeclaration node
  | EnterImportDeclaration node "node option"
  | EnterClassDeclaration node
  | ExitClassDeclaration node
  | EnterFieldDeclaration node "node option"
  | EnterMethodDeclaration node
  | ExitMethodDeclaration node
  | EnterMethodCall node
  | EnterEnumDeclaration node
  | ExitEnumDeclaration node

fun notify :: "listener \<Rightarrow> notification \<Rightarrow> error + listener" where
  "notify self (EnterPackageDeclaration ctx q) = enterPackageDeclaration self ctx q"
| "notify self (ExitPackageDeclaration ctx) = exitPackageDeclaration self ctx"
| "notify self (EnterImportDeclaration ctx q) = enterImportDeclaration self ctx q"
| "notify self (EnterClassDeclaration ctx) = enterClassDeclaration self ctx"
| "notify self (ExitClassDeclaration ctx) = exitClassDeclaration self ctx"
| "notify self (EnterFieldDeclaration ctx a) = enterFieldDeclaration self ctx a"
| "notify self (EnterMethodDeclaration ctx) = enterMethodDeclaration self ctx"
| "notify self (ExitMethodDeclaration ctx) = exitMethodDeclaration self ctx"
| "notify self (EnterMethodCall ctx) = enterMethodCall self ctx"
| "notify self (EnterEnumDeclaration ctx) = enterEnumDeclaration self ctx"
| "notify self (ExitEnumDeclaration ctx) = exitEnumDeclaration self ctx"

text \<open>The walk stops at the first exception; the result then holds the exception and
  the listener as the raising handler found it.\<close>

fun walk :: "listener \<Rightarrow> notification list \<Rightarrow> (error \<times> listener) + listener" where
  "walk self [] = Inr self"
| "walk self (n # rest) =
     (case notify self n of
        Inl e \<Rightarrow> Inl (e, self)
      | Inr self' \<Rightarrow> walk self' rest)"

section \<open>Graph renderer\<close>

definition quoted :: "string \<Rightarrow> string" where
  \<open>quoted s = ''"'' @ s @ ''"''\<close>

definition arrow :: "string \<Rightarrow> string \<Rightarrow> string" where
  \<open>arrow a b = ''"'' @ a @ ''" -> "'' @ b @ ''";''\<close>

text \<open>The three nested loops of \<^verbatim>\<open>JavaFileAst.dot\<close>, each appending to the list
  \<^verbatim>\<open>digraph\<close>.\<close>

fun dot_statements :: "string \<Rightarrow> Statement list \<Rightarrow> string list \<Rightarrow> string list" where
  "dot_statements name [] digraph = digraph"
| "dot_statements name (stmt # rest) digraph =
     dot_statements name rest (digraph @ [arrow name (s_value stmt)])"

fun dot_methods ::
  "JavaMethod list \<Rightarrow> string \<Rightarrow> (string \<times> nat) list \<Rightarrow> string list \<Rightarrow> string list" where
  "dot_methods ms name [] digraph = digraph"
| "dot_methods ms name ((method_name, m) # rest) digraph =
     dot_methods ms name rest
       (dot_statements method_name (m_statements (ms ! m))
          (digraph @ [quoted method_name] @ [arrow name method_name]))"

fun dot_classes ::
  "JavaClass list \<Rightarrow> JavaMethod list \<Rightarrow> (string \<times> nat) list \<Rightarrow> string list \<Rightarrow> string list" where
  "dot_classes cs ms [] digraph = digraph"
| "dot_classes cs ms ((name, r) # rest) digraph =
     dot_classes cs ms rest
       (dot_methods ms name (c_methods (cs ! r))
          (dot_statements name (c_statements (cs ! r)) (digraph @ [quoted name])))"

text \<open>\<^verbatim>\<open>sep.join(xs)\<close>.\<close>

fun join :: "string \<Rightarrow> string list \<Rightarrow> string" where
  "join sep [] = []"
| "join sep [x] = x"
| "join sep (x # y # ys) = x @ sep @ join sep (y # ys)"

definition dot_lines :: "listener \<Rightarrow> string list" where
  \<open>dot_lines self =
     dot_classes (class_objs self) (method_objs self) (a_classes (ast self))
       [''digraph "callGraph" {''] @ [''}'']\<close>

definition dot :: "listener \<Rightarrow> string" where
  "dot self = join [CHR 0x0A] (dot_lines self)"

section \<open>File pipeline and batch\<close>

text \<open>
  The outside of a pipeline: the output files written so far (path and contents) and the
  log. The parser front-end is outside the program; an input file is given by the
  notification stream its syntax tree delivers, together with its path and the path of
  its output file (\<^verbatim>\<open>src.with_suffix('.dot')\<close>).
\<close>

record world =
  files :: "(string \<times> string) list"
  w_log :: "log_record list"

record source_file =
  src_path :: string
  dot_path :: string
  stream :: "notification list"

text \<open>\<^verbatim>\<open>JavaCallGraph.process\<close>: the file is opened and written after the walk.\<close>

definition process :: "world \<Rightarrow> notification list \<Rightarrow> string option \<Rightarrow> (error + unit) \<times> world" where
  "process w events output_path =
     (case walk (CollectListener (w_log w)) events of
        Inl (e, self) \<Rightarrow> (Inl e, w\<lparr>w_log := log self\<rparr>)
      | Inr self \<Rightarrow>
          (case output_path of
             None \<Rightarrow> (Inr (), w\<lparr>w_log := log self\<rparr>)
           | Some p \<Rightarrow>
               if p = [] then (Inr (), w\<lparr>w_log := log self\<rparr>)
               else (Inr (), w\<lparr>w_log := log self,
                                files := AList.update p (dot self) (files w)\<rparr>)))"

definition is_file :: "world \<Rightarrow> string \<Rightarrow> bool" where
  "is_file w p = (map_of (files w) p \<noteq> None)"

text \<open>Decimal digits of a number, for the progress indicator
  \<^verbatim>\<open>f'{index+1}/{len(files)}'\<close>.\<close>

fun str_nat :: "nat \<Rightarrow> string" where
  "str_nat n =
     (if n < 10 then [''0123456789'' ! n]
      else str_nat (n div 10) @ [''0123456789'' ! (n mod 10)])"

text \<open>\<^verbatim>\<open>JavaCallGraph.create\<close>: an exception of \<^verbatim>\<open>process\<close> is raised again by the
  \<^verbatim>\<open>await\<close> and leaves \<^verbatim>\<open>create\<close>; there is no handler.\<close>

definition create :: "world \<Rightarrow> source_file \<Rightarrow> string \<Rightarrow> (error + unit) \<times> world" where
  "create w src percent =
     (case process w (stream src) (Some (dot_path src)) of
        (Inl e, w1) \<Rightarrow> (Inl e, w1)
      | (Inr _, w1) \<Rightarrow>
          if \<not> is_file w1 (dot_path src) then
            (Inr (), w1\<lparr>w_log := w_log w1 @
               [(ERROR, ''['' @ percent @ ''] create java callgraph failed for '' @ src_path src)]\<rparr>)
          else
            (Inr (), w1\<lparr>w_log := w_log w1 @
               [(INFO, ''['' @ percent @ ''] create java callgraph success for '' @ src_path src)]\<rparr>))"

text \<open>
  \<^verbatim>\<open>main\<close> builds one task per file and awaits \<^verbatim>\<open>asyncio.gather(*tasks)\<close>, which
  raises the first exception a task raises. The model runs the tasks one after the
  other in list order and lets every task run to its end, whatever the others did.
\<close>

fun run_tasks :: "world \<Rightarrow> (source_file \<times> string) list \<Rightarrow> (error + unit) list \<times> world" where
  "run_tasks w [] = ([], w)"
| "run_tasks w ((src, percent) # rest) =
     (case create w src percent of
        (r, w1) \<Rightarrow> (case run_tasks w1 rest of (rs, w2) \<Rightarrow> (r # rs, w2)))"

fun first_exception :: "(error + unit) list \<Rightarrow> error + unit" where
  "first_exception [] = Inr ()"
| "first_exception (Inl e # rest) = Inl e"
| "first_exception (Inr _ # rest) = first_exception rest"

definition main :: "world \<Rightarrow> source_file list \<Rightarrow> (error + unit) \<times> world" where
  "main w fs =
     (let tasks = map (\<lambda>(index, src). (src, str_nat (index + 1) @ ''/'' @ str_nat (length fs)))
                    (enumerate 0 fs)
      in case run_tasks w tasks of (rs, w') \<Rightarrow> (first_exception rs, w'))"

section \<open>Example syntax trees\<close>

text \<open>Small trees for concrete runs: a token, and a rule node over given children.\<close>

definition tok :: "string \<Rightarrow> node" where
  "tok s = Node s [] 1 0 1 1"

definition rule_node :: "node list \<Rightarrow> node" where
  "rule_node cs = Node (concat (map getText cs)) cs 1 0 1 2"

definition type_list_A :: node where
  "type_list_A = rule_node [tok ''A'']"

definition type_list_A_B :: node where
  "type_list_A_B = rule_node [tok ''A'', tok '','', tok ''B'']"

definition class_body :: node where
  "class_body = rule_node [tok ''{'', tok ''}'']"

text \<open>The header of \<^verbatim>\<open>class A {}\<close>.\<close>

definition class_A :: node where
  "class_A = rule_node [tok ''class'', tok ''A'', class_body]"


section \<open>Specification-level definitions\<close>

text \<open>The texts of the children at the even positions 0, 2, 4, ... of a node, in order.\<close>

definition even_children :: "node \<Rightarrow> string list" where
  "even_children ctx =
     map (\<lambda>(i, c). getText c) (filter (\<lambda>(i, c). even i) (enumerate 0 (kids ctx)))"

section \<open>Example listeners\<close>

text \<open>The listener after \<^verbatim>\<open>class A {}\<close> has been entered and left.\<close>

definition listener_A :: listener where
  "listener_A =
     \<lparr>class_objs = [new_JavaClass ''A'' [] (Str [])], method_objs = [],
      ast = \<lparr>a_package_name = [], a_imports = [], a_classes = [(''A'', 0)]\<rparr>,
      deep_class = [], deep = 0, current_method = None, log = []\<rparr>"

text \<open>The listener inside \<^verbatim>\<open>class A\<close>, right after its header.\<close>

definition listener_in_A :: listener where
  "listener_in_A =
     \<lparr>class_objs = [new_JavaClass ''A'' [] (Str [])], method_objs = [],
      ast = \<lparr>a_package_name = [], a_imports = [], a_classes = [(''A'', 0)]\<rparr>,
      deep_class = [(1, 0)], deep = 1, current_method = None, log = []\<rparr>"

section \<open>Well-formed listeners\<close>

text \<open>
  What every listener reached from a fresh one satisfies: the keys of \<^verbatim>\<open>classes\<close> are
  distinct, every stored class has a non-empty name, every entry of \<^verbatim>\<open>classes\<close> refers
  to a stored class of that name, and every class registered at a depth is stored and
  its name is a key of \<^verbatim>\<open>classes\<close>.
\<close>

definition wf_parts ::
  "JavaClass list \<Rightarrow> (string \<times> nat) list \<Rightarrow> (int \<times> nat) list \<Rightarrow> bool" where
  "wf_parts cs classes dc =
     (distinct (map fst classes) \<and>
      (\<forall>c \<in> set cs. c_name c \<noteq> []) \<and>
      (\<forall>(k, r) \<in> set classes. r < length cs \<and> c_name (cs ! r) = k) \<and>
      (\<forall>(d, r) \<in> set dc. r < length cs \<and> c_name (cs ! r) \<in> fst ` set classes))"

definition wf :: "listener \<Rightarrow> bool" where
  "wf self = wf_parts (class_objs self) (a_classes (ast self)) (deep_class self)"

section \<open>Results of the handlers\<close>


definition new_JavaMethod :: "node \<Rightarrow> string \<Rightarrow> string \<Rightarrow> ParmType list \<Rightarrow> JavaMethod" where
  "new_JavaMethod ctx method_name return_type parameters =
     \<lparr>m_name = method_name, m_start = start_line ctx, m_stop = stop_line ctx,
      m_depth = depth ctx, m_parameters = parameters, m_return_type = return_type,
      m_statements = []\<rparr>"

definition statement_of :: "node \<Rightarrow> string \<Rightarrow> Statement" where
  "statement_of ctx callee =
     \<lparr>s_value = callee, s_line = start_line ctx, s_column = start_column ctx\<rparr>"

definition add_statement :: "Statement \<Rightarrow> JavaClass \<Rightarrow> JavaClass" where
  "add_statement st c = c\<lparr>c_statements := c_statements c @ [st]\<rparr>"

definition add_method_statement :: "Statement \<Rightarrow> JavaMethod \<Rightarrow> JavaMethod" where
  "add_method_statement st m = m\<lparr>m_statements := m_statements m @ [st]\<rparr>"

definition add_field :: "FieldType \<Rightarrow> JavaClass \<Rightarrow> JavaClass" where
  "add_field f c = c\<lparr>c_fields := c_fields c @ [f]\<rparr>"

text \<open>The current method, when there is one, is a stored method object.\<close>

definition cm_ok :: "listener \<Rightarrow> bool" where
  "cm_ok self = (case current_method self of None \<Rightarrow> True | Some m \<Rightarrow> m < length (method_objs self))"

section \<open>Further example trees and listeners\<close>

text \<open>
  \<^verbatim>\<open>void m() {}\<close> and its overload \<^verbatim>\<open>void m(int x) {}\<close>, the call \<^verbatim>\<open>foo()\<close> at
  line 3, column 8, the field \<^verbatim>\<open>int x;\<close>, the header of \<^verbatim>\<open>class B {}\<close>, and the header
  of a class \<^verbatim>\<open>A\<close> whose body declares a class \<^verbatim>\<open>A\<close> again:
  \<^verbatim>\<open>class A { class A {} int x; { foo(); } }\<close>.
\<close>

definition no_params :: node where
  "no_params = rule_node [tok ''('', tok '')'']"

definition method_m :: node where
  "method_m = rule_node [tok ''void'', tok ''m'', no_params, class_body]"

definition one_param :: node where
  "one_param = rule_node [tok ''('', rule_node [rule_node [tok ''int'', tok ''x'']], tok '')'']"

definition method_m_int :: node where
  "method_m_int = rule_node [tok ''void'', tok ''m'', one_param, class_body]"

definition call_foo :: node where
  "call_foo = Node ''foo()'' [tok ''foo'', tok ''('', tok '')''] 3 8 3 5"

definition field_x :: node where
  "field_x = rule_node [tok ''int'', tok ''x'', tok '';'']"

definition class_B :: node where
  "class_B = rule_node [tok ''class'', tok ''B'', class_body]"

definition outer_A :: node where
  "outer_A = rule_node [tok ''class'', tok ''A'',
     rule_node [tok ''{'', class_A, field_x, call_foo, tok ''}'']]"

text \<open>The listener inside \<^verbatim>\<open>class A\<close> after its method \<^verbatim>\<open>m\<close> was entered and left,
  and the one inside the body of \<^verbatim>\<open>m\<close>.\<close>

definition listener_in_A_m :: listener where
  "listener_in_A_m =
     \<lparr>class_objs = [(new_JavaClass ''A'' [] (Str []))\<lparr>c_methods := [(''m'', 0)]\<rparr>],
      method_objs = [new_JavaMethod method_m ''m'' ''void'' []],
      ast = \<lparr>a_package_name = [], a_imports = [], a_classes = [(''A'', 0)]\<rparr>,
      deep_class = [(1, 0)], deep = 1, current_method = None, log = []\<rparr>"

definition listener_in_m :: listener where
  "listener_in_m = listener_in_A_m\<lparr>current_method := Some 0\<rparr>"

text \<open>The listener in the body of the outer \<^verbatim>\<open>class A\<close> after the inner
  \<^verbatim>\<open>class A {}\<close> was entered and left: depth 1 holds the outer class object (reference 0),
  the key \<^verbatim>\<open>A\<close> of \<^verbatim>\<open>classes\<close> the inner one (reference 1). Then the same listener after
  the call \<^verbatim>\<open>foo()\<close>, and after the field \<^verbatim>\<open>int x;\<close>.\<close>

definition listener_shadowed :: listener where
  "listener_shadowed =
     \<lparr>class_objs = [new_JavaClass ''A'' [] (Str []), new_JavaClass ''A'' [] (Str [])],
      method_objs = [],
      ast = \<lparr>a_package_name = [], a_imports = [], a_classes = [(''A'', 1)]\<rparr>,
      deep_class = [(1, 0)], deep = 1, current_method = None, log = []\<rparr>"

definition listener_shadowed_call :: listener where
  "listener_shadowed_call =
     listener_shadowed\<lparr>class_objs :=
       [new_JavaClass ''A'' [] (Str []),
        add_statement (statement_of call_foo ''foo'') (new_JavaClass ''A'' [] (Str []))]\<rparr>"

definition listener_shadowed_field :: listener where
  "listener_shadowed_field =
     listener_shadowed\<lparr>class_objs :=
       [new_JavaClass ''A'' [] (Str []),
        add_field \<lparr>f_type = ''int'', f_define = ''x''\<rparr> (new_JavaClass ''A'' [] (Str []))]\<rparr>"

section \<open>Example files\<close>

text \<open>
  A class \<^verbatim>\<open>A\<close> whose method \<^verbatim>\<open>m\<close> calls \<^verbatim>\<open>foo()\<close> twice; the header of the generic
  class \<^verbatim>\<open>class G<T> {}\<close>, which has four children; a file that holds only that class;
  and a stream that fails at the generic class after \<^verbatim>\<open>class A {}\<close> has been recorded.
\<close>

definition listener_two_calls :: listener where
  "listener_two_calls =
     \<lparr>class_objs = [(new_JavaClass ''A'' [] (Str []))\<lparr>c_methods := [(''m'', 0)]\<rparr>],
      method_objs = [add_method_statement (statement_of call_foo ''foo'')
                      (add_method_statement (statement_of call_foo ''foo'')
                        (new_JavaMethod method_m ''m'' ''void'' []))],
      ast = \<lparr>a_package_name = [], a_imports = [], a_classes = [(''A'', 0)]\<rparr>,
      deep_class = [], deep = 0, current_method = None, log = []\<rparr>"

definition two_calls_stream :: "notification list" where
  "two_calls_stream =
     [EnterClassDeclaration class_A, EnterMethodDeclaration method_m,
      EnterMethodCall call_foo, EnterMethodCall call_foo,
      ExitMethodDeclaration method_m, ExitClassDeclaration class_A]"

definition class_generic :: node where
  "class_generic = rule_node [tok ''class'', tok ''G'', tok ''<T>'', class_body]"

definition empty_world :: world where
  "empty_world = \<lparr>files = [], w_log = []\<rparr>"

definition file_generic :: source_file where
  "file_generic = \<lparr>src_path = ''/src/G.java'', dot_path = ''/src/G.dot'',
     stream = [EnterClassDeclaration class_generic, ExitClassDeclaration class_generic]\<rparr>"

definition half_built_stream :: "notification list" where
  "half_built_stream =
     [EnterClassDeclaration class_A, ExitClassDeclaration class_A,
      EnterClassDeclaration class_generic, ExitClassDeclaration class_generic]"

section \<open>The graph text, declaratively\<close>

text \<open>
  The text of the graph as the specification describes it, written without the
  renderer's functions: the opening line, then, each on a new line, per class in the
  order of \<^verbatim>\<open>classes\<close> a node line for the class, an edge line per statement of the
  class, and per method in the order of its methods a node line, an edge from the class
  and an edge per statement of the method, and at last the closing brace. An edge line
  is a line that ends with a semicolon; \<open>recorded_edges\<close> counts the statements and
  methods the model holds.
\<close>

definition node_line :: "string \<Rightarrow> string" where
  \<open>node_line a = ''"'' @ a @ ''"''\<close>

definition edge_line :: "string \<Rightarrow> string \<Rightarrow> string" where
  \<open>edge_line a b = ''"'' @ a @ ''" -> "'' @ b @ ''";''\<close>

definition render_method :: "JavaMethod list \<Rightarrow> string \<Rightarrow> string \<times> nat \<Rightarrow> string list" where
  "render_method ms name = (\<lambda>(method_name, m).
     [node_line method_name, edge_line name method_name] @
     map (\<lambda>stmt. edge_line method_name (s_value stmt)) (m_statements (ms ! m)))"

definition render_class :: "JavaClass list \<Rightarrow> JavaMethod list \<Rightarrow> string \<times> nat \<Rightarrow> string list" where
  "render_class cs ms = (\<lambda>(name, r).
     [node_line name] @
     map (\<lambda>stmt. edge_line name (s_value stmt)) (c_statements (cs ! r)) @
     concat (map (render_method ms name) (c_methods (cs ! r))))"

definition render_body :: "listener \<Rightarrow> string list" where
  "render_body self =
     concat (map (render_class (class_objs self) (method_objs self)) (a_classes (ast self)))"

definition render_text :: "listener \<Rightarrow> string" where
  \<open>render_text self =
     ''digraph "callGraph" {'' @
     concat (map (\<lambda>l. CHR 0x0A # l) (render_body self @ [''}'']))\<close>

definition is_edge :: "string \<Rightarrow> bool" where
  "is_edge l = (l \<noteq> [] \<and> last l = CHR '';'')"

definition recorded_edges :: "listener \<Rightarrow> nat" where
  "recorded_edges self =
     sum_list (map (\<lambda>(name, r).
         length (c_statements (class_objs self ! r)) +
         sum_list (map (\<lambda>(method_name, m). 1 + length (m_statements (method_objs self ! m)))
                    (c_methods (class_objs self ! r))))
       (a_classes (ast self)))"

section \<open>Between two declarations of a method\<close>











section \<open>Properties of the decoders\<close>

lemma implements_loop_eq:
  "\<forall>i\<in>set xs. i < length (kids ctx) \<Longrightarrow>
   implements_loop ctx xs acc =
     Inr (acc @ map (\<lambda>i. getText (kids ctx ! i)) (filter (\<lambda>i. i mod 2 = 0) xs))"
  by (induction xs arbitrary: acc) (auto simp: getChild_def)

lemma filter_even_upt:
  "filter (\<lambda>i. i mod 2 = 0) [0..<k] = map (\<lambda>j. 2 * j) [0..<(k + 1) div 2]"
proof (induction k)
  case 0
  then show ?case by simp
next
  case (Suc k)
  show ?case
  proof (cases "k mod 2 = 0")
    case True
    then have "(Suc k + 1) div 2 = Suc ((k + 1) div 2)" "2 * ((k + 1) div 2) = k"
      by presburger+
    with Suc True show ?thesis by simp
  next
    case False
    then have "(Suc k + 1) div 2 = (k + 1) div 2" by presburger
    with Suc False show ?thesis by simp
  qed
qed

lemma even_children_eq:
  "even_children ctx =
     map (\<lambda>i. getText (kids ctx ! i)) (filter (\<lambda>i. i mod 2 = 0) [0..<length (kids ctx)])"
proof -
  have "enumerate 0 xs = map (\<lambda>i. (i, xs ! i)) [0..<length xs]" for xs :: "node list"
    by (rule nth_equalityI) (simp_all add: nth_enumerate_eq)
  then show ?thesis
    by (simp add: even_children_def filter_map comp_def even_iff_mod_2_eq_zero)
qed

lemma ceil_half: "\<lceil>real k / 2\<rceil> = int ((k + 1) div 2)"
proof -
  have "\<exists>m. k = 2 * m \<or> k = 2 * m + 1" by presburger
  then obtain m where "k = 2 * m \<or> k = 2 * m + 1" ..
  then show ?thesis
  proof
    assume "k = 2 * m"
    then show ?thesis by simp
  next
    assume k: "k = 2 * m + 1"
    have "\<lceil>real k / 2\<rceil> = int m + 1"
      by (rule ceiling_unique) (simp_all add: k field_simps)
    with k show ?thesis by simp
  qed
qed

text \<open>
  Claim C4. An implements list with exactly one child decodes to the singleton of that
  child's text. With \<open>k \<ge> 2\<close> children it decodes, without raising, to the texts of the
  children at the even positions in their order: the result has \<open>\<lceil>k / 2\<rceil>\<close> entries and
  its \<open>j\<close>-th entry is the text of child \<open>2 * j\<close>.
\<close>

theorem parse_implements_block_even_children:
  "(getChildCount ctx = 1 \<longrightarrow> parse_implements_block ctx = Inr [getText (kids ctx ! 0)]) \<and>
   (2 \<le> getChildCount ctx \<longrightarrow>
      parse_implements_block ctx = Inr (even_children ctx) \<and>
      int (length (even_children ctx)) = \<lceil>real (getChildCount ctx) / 2\<rceil> \<and>
      (\<forall>j < length (even_children ctx).
         even_children ctx ! j = getText (kids ctx ! (2 * j))))"
proof (intro conjI impI)
  assume "getChildCount ctx = 1"
  then show "parse_implements_block ctx = Inr [getText (kids ctx ! 0)]"
    by (simp add: parse_implements_block_def getChildCount_def getChild_def)
next
  assume k: "2 \<le> getChildCount ctx"
  then show "parse_implements_block ctx = Inr (even_children ctx)"
    by (simp add: parse_implements_block_def getChildCount_def implements_loop_eq
        even_children_eq)
  show "int (length (even_children ctx)) = \<lceil>real (getChildCount ctx) / 2\<rceil>"
    by (simp add: even_children_eq filter_even_upt ceil_half getChildCount_def)
  show "\<forall>j < length (even_children ctx). even_children ctx ! j = getText (kids ctx ! (2 * j))"
    by (simp add: even_children_eq filter_even_upt)
qed

theorem parse_implements_block_even_children_witness:
  "getChildCount type_list_A = 1 \<and> parse_implements_block type_list_A = Inr [''A''] \<and>
   2 \<le> getChildCount type_list_A_B \<and>
   parse_implements_block type_list_A_B = Inr [''A'', ''B''] \<and>
   int (length [''A'', ''B'']) = \<lceil>real (getChildCount type_list_A_B) / 2\<rceil>"
proof -
  have a: "getChildCount type_list_A = 1"
    by (simp add: getChildCount_def type_list_A_def rule_node_def)
  have b: "2 \<le> getChildCount type_list_A_B"
    by (simp add: getChildCount_def type_list_A_B_def rule_node_def)
  have e: "even_children type_list_A_B = [''A'', ''B'']"
    by (simp add: even_children_def type_list_A_B_def rule_node_def tok_def
        enumerate_eq_zip upt_rec)
  from a b e parse_implements_block_even_children [of type_list_A]
    parse_implements_block_even_children [of type_list_A_B]
  show ?thesis
    by (simp add: type_list_A_def rule_node_def tok_def)
qed

text \<open>
  Claim C2. On the three-child header of \<^verbatim>\<open>class A {}\<close> the decoder returns the name
  \<^verbatim>\<open>A\<close>, the empty string as \<^verbatim>\<open>extends\<close> and, as \<^verbatim>\<open>implements\<close>, the empty
  string it was initialised with: not the empty list of strings.
\<close>

theorem parse_class_block_three_children_empty_string:
  "getChildCount class_A = 3 \<and>
   parse_class_block (CollectListener []) class_A = Inr (''A'', [], Str []) \<and>
   parse_class_block (CollectListener []) class_A \<noteq> Inr (''A'', [], StrList [])"
  by (simp add: parse_class_block_def class_block_branch_def child_text_def getChild_def
      getChildCount_def class_A_def rule_node_def tok_def)

section \<open>Evaluation of concrete runs\<close>

lemmas listener_defs =
  enterPackageDeclaration_def exitPackageDeclaration_def enterImportDeclaration_def
  enterClassDeclaration_def exitClassDeclaration_def enterFieldDeclaration_def
  enterMethodDeclaration_def exitMethodDeclaration_def enterMethodCall_def
  enterEnumDeclaration_def exitEnumDeclaration_def
  parse_class_block_def class_block_branch_def parse_method_params_block_def parse_param_def
  parse_implements_block_def child_text_def grandchild_text_def getChild_def getChildCount_def
  CollectListener_def new_JavaFileAst_def new_JavaClass_def Let_def

lemmas tree_defs = tok_def rule_node_def class_A_def class_body_def

section \<open>The invariant of the listener\<close>

lemma set_AList_update: "set (AList.update k v al) \<subseteq> insert (k, v) (set al)"
  by (induction al) auto

lemma set_AList_delete: "set (AList.delete k al) \<subseteq> set al"
  by (auto simp: AList.delete_eq)

lemma parse_class_block_name:
  "parse_class_block self ctx = Inr (n, e, i) \<Longrightarrow> n \<noteq> []"
  by (auto simp: parse_class_block_def split: sum.splits prod.splits if_splits)

lemma wf_init: "wf (CollectListener lg)"
  by (simp add: wf_def wf_parts_def CollectListener_def new_JavaFileAst_def)

lemma wf_parts_new_class:
  assumes "wf_parts cs classes dc" "n \<noteq> []" "c_name c = n"
  shows "wf_parts (cs @ [c]) (AList.update n (length cs) classes) (AList.update d (length cs) dc)"
proof -
  have 1: "distinct (map fst (AList.update n (length cs) classes))"
    using assms(1) by (simp add: wf_parts_def distinct_update)
  have 2: "\<forall>c' \<in> set (cs @ [c]). c_name c' \<noteq> []"
    using assms by (auto simp: wf_parts_def)
  have 3: "\<forall>(k, r) \<in> set (AList.update n (length cs) classes).
             r < length (cs @ [c]) \<and> c_name ((cs @ [c]) ! r) = k"
  proof (clarify)
    fix k r assume "(k, r) \<in> set (AList.update n (length cs) classes)"
    then have "(k, r) = (n, length cs) \<or> (k, r) \<in> set classes"
      using set_AList_update by fastforce
    then show "r < length (cs @ [c]) \<and> c_name ((cs @ [c]) ! r) = k"
      using assms by (auto simp: wf_parts_def nth_append)
  qed
  have 4: "\<forall>(d', r) \<in> set (AList.update d (length cs) dc). r < length (cs @ [c]) \<and>
             c_name ((cs @ [c]) ! r) \<in> fst ` set (AList.update n (length cs) classes)"
  proof (clarify)
    fix d' r assume "(d', r) \<in> set (AList.update d (length cs) dc)"
    then have "(d', r) = (d, length cs) \<or> (d', r) \<in> set dc"
      using set_AList_update by fastforce
    then show "r < length (cs @ [c]) \<and>
        c_name ((cs @ [c]) ! r) \<in> fst ` set (AList.update n (length cs) classes)"
      using assms by (auto simp: wf_parts_def nth_append dom_update)
  qed
  from 1 2 3 4 show ?thesis by (simp add: wf_parts_def)
qed

lemma wf_parts_update_obj:
  assumes "wf_parts cs classes dc" "c_name c = c_name (cs ! r)"
  shows "wf_parts (cs[r := c]) classes dc"
proof (cases "r < length cs")
  case True
  have n: "c_name (cs[r := c] ! i) = c_name (cs ! i)" if "i < length cs" for i
    using that assms(2) by (cases "i = r") auto
  have 2: "\<forall>c' \<in> set (cs[r := c]). c_name c' \<noteq> []"
  proof
    fix c' assume "c' \<in> set (cs[r := c])"
    then have "c' = c \<or> c' \<in> set cs" using set_update_subset_insert by fastforce
    moreover have "cs ! r \<in> set cs" using True by simp
    ultimately show "c_name c' \<noteq> []" using assms by (auto simp: wf_parts_def)
  qed
  have 3: "\<forall>(k, i) \<in> set classes. i < length (cs[r := c]) \<and> c_name (cs[r := c] ! i) = k"
    using assms(1) n by (auto simp: wf_parts_def)
  have 4: "\<forall>(d, i) \<in> set dc. i < length (cs[r := c]) \<and>
             c_name (cs[r := c] ! i) \<in> fst ` set classes"
  proof (clarify)
    fix d i assume "(d, i) \<in> set dc"
    then have "i < length cs \<and> c_name (cs ! i) \<in> fst ` set classes"
      using assms(1) by (auto simp: wf_parts_def)
    then show "i < length (cs[r := c]) \<and> c_name (cs[r := c] ! i) \<in> fst ` set classes"
      using n by simp
  qed
  from assms(1) have "distinct (map fst classes)" by (simp add: wf_parts_def)
  with 2 3 4 show ?thesis by (simp add: wf_parts_def)
next
  case False
  then have "cs[r := c] = cs" by (simp add: list_update_beyond)
  then show ?thesis using assms(1) by simp
qed

lemma wf_parts_delete:
  assumes "wf_parts cs classes dc"
  shows "wf_parts cs classes (AList.delete d dc)"
proof -
  have "\<forall>(d', i) \<in> set (AList.delete d dc). i < length cs \<and> c_name (cs ! i) \<in> fst ` set classes"
  proof (clarify)
    fix d' i assume "(d', i) \<in> set (AList.delete d dc)"
    then have "(d', i) \<in> set dc" using set_AList_delete by fastforce
    then show "i < length cs \<and> c_name (cs ! i) \<in> fst ` set classes"
      using assms by (auto simp: wf_parts_def)
  qed
  with assms show ?thesis by (simp add: wf_parts_def)
qed

lemma wf_enterClassDeclaration:
  assumes "wf self" "enterClassDeclaration self ctx = Inr self'"
  shows "wf self'"
proof -
  from assms(2) obtain n e i where p: "parse_class_block self ctx = Inr (n, e, i)"
    and s: "self' = self\<lparr>deep := deep self + 1,
               class_objs := class_objs self @ [new_JavaClass n e i],
               ast := (ast self)\<lparr>a_classes := AList.update n (length (class_objs self)) (a_classes (ast self))\<rparr>,
               deep_class := AList.update (deep self + 1) (length (class_objs self)) (deep_class self)\<rparr>"
    by (auto simp: enterClassDeclaration_def Let_def update_conv' split: sum.splits prod.splits)
  have "c_name (new_JavaClass n e i) = n" by (simp add: new_JavaClass_def)
  with wf_parts_new_class[OF assms(1)[unfolded wf_def] parse_class_block_name[OF p]]
  show ?thesis by (simp add: s wf_def)
qed

lemma wf_exitClassDeclaration:
  "wf self \<Longrightarrow> exitClassDeclaration self ctx = Inr self' \<Longrightarrow> wf self'"
  by (auto simp: exitClassDeclaration_def wf_def wf_parts_delete split: sum.splits option.splits)

lemma wf_enterFieldDeclaration:
  "wf self \<Longrightarrow> enterFieldDeclaration self ctx a = Inr self' \<Longrightarrow> wf self'"
  by (auto simp: enterFieldDeclaration_def wf_def Let_def wf_parts_update_obj
      split: sum.splits option.splits prod.splits if_splits)

lemma wf_enterMethodDeclaration:
  "wf self \<Longrightarrow> enterMethodDeclaration self ctx = Inr self' \<Longrightarrow> wf self'"
  by (auto simp: enterMethodDeclaration_def wf_def Let_def wf_parts_update_obj
      split: sum.splits option.splits prod.splits if_splits)

lemma wf_enterMethodCall:
  "wf self \<Longrightarrow> enterMethodCall self ctx = Inr self' \<Longrightarrow> wf self'"
  by (auto simp: enterMethodCall_def wf_def Let_def wf_parts_update_obj
      split: sum.splits option.splits prod.splits if_splits)

lemma wf_notify: "wf self \<Longrightarrow> notify self n = Inr self' \<Longrightarrow> wf self'"
  by (cases n)
    (auto simp: enterPackageDeclaration_def exitPackageDeclaration_def enterImportDeclaration_def
      exitMethodDeclaration_def enterEnumDeclaration_def exitEnumDeclaration_def wf_def
      dest: wf_enterClassDeclaration[unfolded wf_def] wf_exitClassDeclaration[unfolded wf_def]
        wf_enterFieldDeclaration[unfolded wf_def] wf_enterMethodDeclaration[unfolded wf_def]
        wf_enterMethodCall[unfolded wf_def]
      split: option.splits sum.splits)

lemma wf_walk: "wf self \<Longrightarrow> walk self ns = Inr self' \<Longrightarrow> wf self'"
  by (induction ns arbitrary: self) (auto split: sum.splits dest: wf_notify)

lemma wf_walk_raise: "wf self \<Longrightarrow> walk self ns = Inl (e, self') \<Longrightarrow> wf self'"
  by (induction ns arbitrary: self) (auto split: sum.splits dest: wf_notify)

lemma parse_class_block_child1:
  "parse_class_block self ctx = Inr x \<Longrightarrow> \<exists>t. child_text ctx 1 = Inr t"
  by (auto simp: parse_class_block_def split: sum.splits)

lemma enterClassDeclaration_result:
  assumes "parse_class_block self ctx = Inr (name, ext, impl)"
  shows "enterClassDeclaration self ctx =
     Inr (self\<lparr>deep := deep self + 1,
               class_objs := class_objs self @ [new_JavaClass name ext impl],
               ast := (ast self)\<lparr>a_classes :=
                  AList.update name (length (class_objs self)) (a_classes (ast self))\<rparr>,
               deep_class := AList.update (deep self + 1) (length (class_objs self)) (deep_class self)\<rparr>)"
  using assms parse_class_block_child1[OF assms]
  by (auto simp: enterClassDeclaration_def Let_def update_conv')

lemma map_of_distinct_mem:
  "distinct (map fst al) \<Longrightarrow> (k, v) \<in> set al \<Longrightarrow> map_of al k = Some v"
  by simp

text \<open>
  Claim C6. Whatever the notification stream, the listener after the last processed
  notification (the stream ran to its end, or a handler raised at the next notification)
  has at most one entry per name in \<^verbatim>\<open>classes\<close>, and every entry refers to a class
  object whose name is the entry's non-empty key. A class declaration whose decoded name
  is already a key succeeds and replaces the value of that key, in place, by the newly
  created class object (a reference no entry held before); every other key keeps its
  value.
\<close>

theorem classes_mapping_invariant:
  assumes "walk (CollectListener lg) events = Inr self \<or>
           walk (CollectListener lg) events = Inl (e, self)"
  shows "distinct (map fst (a_classes (ast self))) \<and>
         (\<forall>(k, r) \<in> set (a_classes (ast self)).
            k \<noteq> [] \<and> r < length (class_objs self) \<and> c_name (class_objs self ! r) = k) \<and>
         (\<forall>ctx name ext impl.
            parse_class_block self ctx = Inr (name, ext, impl) \<and>
            name \<in> fst ` set (a_classes (ast self)) \<longrightarrow>
            (\<exists>self'. enterClassDeclaration self ctx = Inr self' \<and>
               map fst (a_classes (ast self')) = map fst (a_classes (ast self)) \<and>
               map_of (a_classes (ast self)) name \<noteq> Some (length (class_objs self)) \<and>
               map_of (a_classes (ast self')) name = Some (length (class_objs self)) \<and>
               class_objs self' ! length (class_objs self) = new_JavaClass name ext impl \<and>
               (\<forall>k. k \<noteq> name \<longrightarrow>
                  map_of (a_classes (ast self')) k = map_of (a_classes (ast self)) k)))"
proof -
  have w: "wf self"
    using assms wf_walk[OF wf_init] wf_walk_raise[OF wf_init] by blast
  then have d: "distinct (map fst (a_classes (ast self)))"
    by (simp add: wf_def wf_parts_def)
  have inv: "\<forall>(k, r) \<in> set (a_classes (ast self)).
            k \<noteq> [] \<and> r < length (class_objs self) \<and> c_name (class_objs self ! r) = k"
  proof (clarify)
    fix k r assume m: "(k, r) \<in> set (a_classes (ast self))"
    with w have r: "r < length (class_objs self)" "c_name (class_objs self ! r) = k"
      by (auto simp: wf_def wf_parts_def)
    then have "class_objs self ! r \<in> set (class_objs self)" by simp
    with w have "c_name (class_objs self ! r) \<noteq> []" by (simp add: wf_def wf_parts_def)
    with r show "k \<noteq> [] \<and> r < length (class_objs self) \<and> c_name (class_objs self ! r) = k"
      by simp
  qed
  have ow: "\<exists>self'. enterClassDeclaration self ctx = Inr self' \<and>
               map fst (a_classes (ast self')) = map fst (a_classes (ast self)) \<and>
               map_of (a_classes (ast self)) name \<noteq> Some (length (class_objs self)) \<and>
               map_of (a_classes (ast self')) name = Some (length (class_objs self)) \<and>
               class_objs self' ! length (class_objs self) = new_JavaClass name ext impl \<and>
               (\<forall>k. k \<noteq> name \<longrightarrow>
                  map_of (a_classes (ast self')) k = map_of (a_classes (ast self)) k)"
    if p: "parse_class_block self ctx = Inr (name, ext, impl)"
      and k: "name \<in> fst ` set (a_classes (ast self))" for ctx name ext impl
  proof -
    have old: "map_of (a_classes (ast self)) name \<noteq> Some (length (class_objs self))"
    proof
      assume "map_of (a_classes (ast self)) name = Some (length (class_objs self))"
      then have "(name, length (class_objs self)) \<in> set (a_classes (ast self))"
        by (rule map_of_SomeD)
      with inv show False by auto
    qed
    from k have keys: "map fst (AList.update name (length (class_objs self)) (a_classes (ast self)))
        = map fst (a_classes (ast self))"
      by (simp add: update_keys)
    show ?thesis
      using old keys by (simp add: enterClassDeclaration_result[OF p] update_conv')
  qed
  from d inv ow show ?thesis by blast
qed

theorem classes_mapping_invariant_witness:
  "walk (CollectListener []) [EnterClassDeclaration class_A, ExitClassDeclaration class_A]
     = Inr listener_A \<and>
   a_classes (ast listener_A) = [(''A'', 0)] \<and>
   c_name (class_objs listener_A ! 0) = ''A'' \<and>
   parse_class_block listener_A class_A = Inr (''A'', [], Str []) \<and>
   (\<exists>self'. enterClassDeclaration listener_A class_A = Inr self' \<and>
      map fst (a_classes (ast self')) = [''A''] \<and>
      map_of (a_classes (ast listener_A)) ''A'' = Some 0 \<and>
      map_of (a_classes (ast self')) ''A'' = Some 1 \<and>
      class_objs self' ! 1 = new_JavaClass ''A'' [] (Str []))"
proof -
  have w: "walk (CollectListener []) [EnterClassDeclaration class_A, ExitClassDeclaration class_A]
     = Inr listener_A"
    by (simp add: listener_defs tree_defs listener_A_def AList.delete_eq)
  have p: "parse_class_block listener_A class_A = Inr (''A'', [], Str [])"
    by (simp add: listener_defs tree_defs listener_A_def)
  have k: "''A'' \<in> fst ` set (a_classes (ast listener_A))"
    by (simp add: listener_A_def)
  from classes_mapping_invariant [of "[]" "[EnterClassDeclaration class_A, ExitClassDeclaration class_A]" listener_A]
    w p k
  have "\<exists>self'. enterClassDeclaration listener_A class_A = Inr self' \<and>
               map fst (a_classes (ast self')) = map fst (a_classes (ast listener_A)) \<and>
               map_of (a_classes (ast listener_A)) ''A'' \<noteq> Some (length (class_objs listener_A)) \<and>
               map_of (a_classes (ast self')) ''A'' = Some (length (class_objs listener_A)) \<and>
               class_objs self' ! length (class_objs listener_A) = new_JavaClass ''A'' [] (Str [])"
    by blast
  then have "\<exists>self'. enterClassDeclaration listener_A class_A = Inr self' \<and>
      map fst (a_classes (ast self')) = [''A''] \<and>
      map_of (a_classes (ast listener_A)) ''A'' = Some 0 \<and>
      map_of (a_classes (ast self')) ''A'' = Some 1 \<and>
      class_objs self' ! 1 = new_JavaClass ''A'' [] (Str [])"
    by (simp add: listener_A_def)
  with w p show ?thesis by (simp add: listener_A_def new_JavaClass_def)
qed




section \<open>Method declarations\<close>

lemmas tree_defs2 = no_params_def method_m_def one_param_def method_m_int_def call_foo_def field_x_def

lemmas tree_defs3 = outer_A_def



section \<open>Method calls and field declarations\<close>

lemma wf_class_lookup:
  assumes "wf self" "map_of (deep_class self) (deep self) = Some cur"
  shows "\<exists>r. map_of (a_classes (ast self)) (c_name (class_objs self ! cur)) = Some r \<and>
             r < length (class_objs self) \<and>
             c_name (class_objs self ! r) = c_name (class_objs self ! cur)"
proof -
  have "(deep self, cur) \<in> set (deep_class self)" using assms(2) by (rule map_of_SomeD)
  with assms(1) have "c_name (class_objs self ! cur) \<in> fst ` set (a_classes (ast self))"
    by (auto simp: wf_def wf_parts_def)
  then obtain r where r: "map_of (a_classes (ast self)) (c_name (class_objs self ! cur)) = Some r"
    by (metis domD dom_map_of_conv_image_fst)
  then have "(c_name (class_objs self ! cur), r) \<in> set (a_classes (ast self))"
    by (rule map_of_SomeD)
  with assms(1) r show ?thesis by (auto simp: wf_def wf_parts_def)
qed

lemma cm_ok_enterMethodDeclaration:
  assumes "wf self" "cm_ok self" "enterMethodDeclaration self ctx = Inr self'"
  shows "cm_ok self'"
proof -
  from assms(3) obtain n cur where n: "child_text ctx 1 = Inr n"
    and cur: "map_of (deep_class self) (deep self) = Some cur"
    by (auto simp: enterMethodDeclaration_def split: sum.splits option.splits)
  from wf_class_lookup[OF assms(1) cur] obtain r where
    r: "map_of (a_classes (ast self)) (c_name (class_objs self ! cur)) = Some r"
       "r < length (class_objs self)" by blast
  show ?thesis
  proof (cases "map_of (c_methods (class_objs self ! cur)) n = None")
    case True
    with assms(3) n cur r show ?thesis
      by (auto simp: enterMethodDeclaration_def Let_def update_conv' cm_ok_def
          split: sum.splits)
  next
    case False
    with assms(2,3) n cur show ?thesis
      by (auto simp: enterMethodDeclaration_def Let_def cm_ok_def split: option.splits)
  qed
qed

lemma cm_ok_notify:
  assumes "wf self" "cm_ok self" "notify self n = Inr self'"
  shows "cm_ok self'"
proof (cases n)
  case (EnterMethodDeclaration ctx)
  with assms show ?thesis by (simp add: cm_ok_enterMethodDeclaration)
next
  case (EnterMethodCall ctx)
  with assms(2,3) show ?thesis
    by (auto simp: enterMethodCall_def Let_def cm_ok_def split: sum.splits option.splits)
next
  case (EnterFieldDeclaration ctx a)
  with assms(2,3) show ?thesis
    by (auto simp: enterFieldDeclaration_def Let_def cm_ok_def
        split: sum.splits option.splits prod.splits if_splits)
next
  case (EnterClassDeclaration ctx)
  with assms(2,3) show ?thesis
    by (auto simp: enterClassDeclaration_def Let_def cm_ok_def
        split: sum.splits option.splits prod.splits)
next
  case (EnterEnumDeclaration ctx)
  with assms(2,3) show ?thesis
    by (auto simp: enterEnumDeclaration_def enterClassDeclaration_def Let_def cm_ok_def
        split: sum.splits option.splits prod.splits)
next
  case (ExitClassDeclaration ctx)
  with assms(2,3) show ?thesis
    by (auto simp: exitClassDeclaration_def cm_ok_def split: sum.splits option.splits)
next
  case (ExitEnumDeclaration ctx)
  with assms(2,3) show ?thesis
    by (auto simp: exitEnumDeclaration_def exitClassDeclaration_def cm_ok_def
        split: sum.splits option.splits)
next
  case (ExitMethodDeclaration ctx)
  with assms(3) show ?thesis
    by (auto simp: exitMethodDeclaration_def cm_ok_def split: sum.splits)
next
  case (EnterPackageDeclaration ctx q)
  with assms(2,3) show ?thesis
    by (auto simp: enterPackageDeclaration_def cm_ok_def split: option.splits)
next
  case (ExitPackageDeclaration ctx)
  with assms(2,3) show ?thesis by (simp add: exitPackageDeclaration_def)
next
  case (EnterImportDeclaration ctx q)
  with assms(2,3) show ?thesis
    by (auto simp: enterImportDeclaration_def cm_ok_def split: option.splits)
qed

lemma wf_cm_ok_walk:
  "wf self \<Longrightarrow> cm_ok self \<Longrightarrow> walk self ns = Inr self' \<Longrightarrow> wf self' \<and> cm_ok self'"
proof (induction ns arbitrary: self)
  case Nil
  then show ?case by simp
next
  case (Cons n ns)
  from Cons.prems(3) obtain s1 where s1: "notify self n = Inr s1" "walk s1 ns = Inr self'"
    by (auto split: sum.splits)
  from Cons.prems(1,2) s1(1) have "wf s1" "cm_ok s1"
    by (auto intro: wf_notify cm_ok_notify)
  with Cons.IH s1(2) show ?case by blast
qed

lemma cm_ok_init: "cm_ok (CollectListener lg)"
  by (simp add: cm_ok_def CollectListener_def)

lemma reachable_wf:
  "walk (CollectListener lg) events = Inr self \<Longrightarrow> wf self \<and> cm_ok self"
  using wf_cm_ok_walk[OF wf_init cm_ok_init] by blast

text \<open>
  Where claim C5 fails: in \<^verbatim>\<open>class A { class A {} { foo(); } }\<close> the call \<^verbatim>\<open>foo()\<close>
  arrives with no current method while the outer class (reference 0) is the class
  registered at the present depth; the statement is appended to the inner class object
  (reference 1), which the key \<^verbatim>\<open>A\<close> refers to, and the statements of the outer class
  stay empty.
\<close>

theorem method_call_not_attributed_to_open_class:
  "walk (CollectListener []) [EnterClassDeclaration outer_A, EnterClassDeclaration class_A,
      ExitClassDeclaration class_A] = Inr listener_shadowed \<and>
   current_method listener_shadowed = None \<and>
   map_of (deep_class listener_shadowed) (deep listener_shadowed) = Some 0 \<and>
   enterMethodCall listener_shadowed call_foo = Inr listener_shadowed_call \<and>
   c_statements (class_objs listener_shadowed_call ! 0) = [] \<and>
   c_statements (class_objs listener_shadowed_call ! 1)
     = [\<lparr>s_value = ''foo'', s_line = 3, s_column = 8\<rparr>]"
  by (simp add: listener_defs tree_defs tree_defs2 tree_defs3 listener_shadowed_def
      listener_shadowed_call_def add_statement_def statement_of_def AList.delete_eq)

text \<open>
  Claim C5, amended. In a listener reached by a notification stream, a method-call
  notification whose node has a first child builds the statement of that child's text
  and the node's start line and column. With a current method it is appended to the
  statements of that (stored) method object. With no current method and a class
  registered at the present depth it is appended to the statements of the class object
  that \<^verbatim>\<open>classes\<close> holds under the name of that class: a stored class object of the
  same name.
\<close>

theorem method_call_statement_attribution:
  assumes "walk (CollectListener lg) events = Inr self"
    and "child_text ctx 0 = Inr callee"
  shows "(\<forall>m. current_method self = Some m \<longrightarrow>
            m < length (method_objs self) \<and>
            enterMethodCall self ctx =
              Inr (self\<lparr>method_objs := (method_objs self)
                     [m := add_method_statement (statement_of ctx callee) (method_objs self ! m)]\<rparr>)) \<and>
         (\<forall>cur. current_method self = None \<and>
            map_of (deep_class self) (deep self) = Some cur \<longrightarrow>
            (\<exists>r. map_of (a_classes (ast self)) (c_name (class_objs self ! cur)) = Some r \<and>
               r < length (class_objs self) \<and>
               c_name (class_objs self ! r) = c_name (class_objs self ! cur) \<and>
               enterMethodCall self ctx =
                 Inr (self\<lparr>class_objs := (class_objs self)
                        [r := add_statement (statement_of ctx callee) (class_objs self ! r)]\<rparr>)))"
proof (intro conjI allI impI)
  fix m assume m: "current_method self = Some m"
  from reachable_wf[OF assms(1)] m show "m < length (method_objs self)"
    by (simp add: cm_ok_def)
  from m assms(2) show "enterMethodCall self ctx =
      Inr (self\<lparr>method_objs := (method_objs self)
             [m := add_method_statement (statement_of ctx callee) (method_objs self ! m)]\<rparr>)"
    by (simp add: enterMethodCall_def add_method_statement_def statement_of_def Let_def)
next
  fix cur assume c: "current_method self = None \<and>
            map_of (deep_class self) (deep self) = Some cur"
  from reachable_wf[OF assms(1)] have "wf self" by simp
  from wf_class_lookup[OF this] c obtain r where
    r: "map_of (a_classes (ast self)) (c_name (class_objs self ! cur)) = Some r"
      "r < length (class_objs self)"
      "c_name (class_objs self ! r) = c_name (class_objs self ! cur)" by blast
  from c r(1) assms(2) have "enterMethodCall self ctx =
       Inr (self\<lparr>class_objs := (class_objs self)
              [r := add_statement (statement_of ctx callee) (class_objs self ! r)]\<rparr>)"
    by (simp add: enterMethodCall_def add_statement_def statement_of_def Let_def)
  with r show "\<exists>r. map_of (a_classes (ast self)) (c_name (class_objs self ! cur)) = Some r \<and>
               r < length (class_objs self) \<and>
               c_name (class_objs self ! r) = c_name (class_objs self ! cur) \<and>
               enterMethodCall self ctx =
                 Inr (self\<lparr>class_objs := (class_objs self)
                        [r := add_statement (statement_of ctx callee) (class_objs self ! r)]\<rparr>)"
    by blast
qed


theorem method_call_statement_attribution_witness:
  "walk (CollectListener []) [EnterClassDeclaration class_A, EnterMethodDeclaration method_m]
     = Inr listener_in_m \<and>
   child_text call_foo 0 = Inr ''foo'' \<and>
   current_method listener_in_m = Some 0 \<and>
   enterMethodCall listener_in_m call_foo =
     Inr (listener_in_m\<lparr>method_objs :=
       [add_method_statement \<lparr>s_value = ''foo'', s_line = 3, s_column = 8\<rparr>
          (new_JavaMethod method_m ''m'' ''void'' [])]\<rparr>) \<and>
   walk (CollectListener []) [EnterClassDeclaration class_A] = Inr listener_in_A \<and>
   current_method listener_in_A = None \<and>
   map_of (deep_class listener_in_A) (deep listener_in_A) = Some 0 \<and>
   enterMethodCall listener_in_A call_foo =
     Inr (listener_in_A\<lparr>class_objs :=
       [add_statement \<lparr>s_value = ''foo'', s_line = 3, s_column = 8\<rparr>
          (new_JavaClass ''A'' [] (Str []))]\<rparr>)"
proof -
  have w1: "walk (CollectListener []) [EnterClassDeclaration class_A,
      EnterMethodDeclaration method_m] = Inr listener_in_m"
    by (simp add: listener_defs tree_defs tree_defs2 listener_in_m_def listener_in_A_m_def
        new_JavaMethod_def)
  have c: "child_text call_foo 0 = Inr ''foo''"
    by (simp add: child_text_def getChild_def call_foo_def tok_def)
  have m: "current_method listener_in_m = Some 0"
    by (simp add: listener_in_m_def)
  have w2: "walk (CollectListener []) [EnterClassDeclaration class_A] = Inr listener_in_A"
    by (simp add: listener_defs tree_defs listener_in_A_def)
  have n: "current_method listener_in_A = None"
    "map_of (deep_class listener_in_A) (deep listener_in_A) = Some 0"
    by (simp_all add: listener_in_A_def)
  from method_call_statement_attribution [OF w1 c] m
  have r1: "enterMethodCall listener_in_m call_foo =
     Inr (listener_in_m\<lparr>method_objs :=
       [add_method_statement \<lparr>s_value = ''foo'', s_line = 3, s_column = 8\<rparr>
          (new_JavaMethod method_m ''m'' ''void'' [])]\<rparr>)"
    by (simp add: listener_in_m_def listener_in_A_m_def statement_of_def call_foo_def)
  from method_call_statement_attribution [OF w2 c] n
  have "\<exists>r. map_of (a_classes (ast listener_in_A)) (c_name (class_objs listener_in_A ! 0)) = Some r \<and>
     enterMethodCall listener_in_A call_foo =
       Inr (listener_in_A\<lparr>class_objs := (class_objs listener_in_A)
          [r := add_statement (statement_of call_foo ''foo'') (class_objs listener_in_A ! r)]\<rparr>)"
    by blast
  then have r2: "enterMethodCall listener_in_A call_foo =
     Inr (listener_in_A\<lparr>class_objs :=
       [add_statement \<lparr>s_value = ''foo'', s_line = 3, s_column = 8\<rparr>
          (new_JavaClass ''A'' [] (Str []))]\<rparr>)"
    by (auto simp: listener_in_A_def new_JavaClass_def statement_of_def call_foo_def)
  from w1 c m r1 w2 n r2 show ?thesis by simp
qed

text \<open>
  Where claim C7 fails: in \<^verbatim>\<open>class A { class A {} int x; }\<close> the field arrives while
  the outer class (reference 0) is registered at the present depth and the re-derived
  name \<^verbatim>\<open>A\<close> agrees with its name; the field is appended to the inner class object
  (reference 1), and the fields of the outer class stay empty.
\<close>

theorem field_not_appended_to_open_class:
  "walk (CollectListener []) [EnterClassDeclaration outer_A, EnterClassDeclaration class_A,
      ExitClassDeclaration class_A] = Inr listener_shadowed \<and>
   map_of (deep_class listener_shadowed) (deep listener_shadowed) = Some 0 \<and>
   parse_class_block listener_shadowed outer_A = Inr (''A'', [], Str []) \<and>
   c_name (class_objs listener_shadowed ! 0) = ''A'' \<and>
   enterFieldDeclaration listener_shadowed field_x (Some outer_A) = Inr listener_shadowed_field \<and>
   c_fields (class_objs listener_shadowed_field ! 0) = [] \<and>
   c_fields (class_objs listener_shadowed_field ! 1) = [\<lparr>f_type = ''int'', f_define = ''x''\<rparr>]"
  by (simp add: listener_defs tree_defs tree_defs2 tree_defs3 listener_shadowed_def
      listener_shadowed_field_def add_field_def AList.delete_eq)

text \<open>
  Claim C7, amended. In a listener reached by a notification stream, take a
  field-declaration notification whose fourth ancestor decodes to a class header, whose
  node has a first and a second child, and which arrives while a class is registered at
  the present depth. The handler raises exactly when the re-derived name differs from
  the name of that class. When the names agree, it appends the field of the first
  child's text (type) and the second child's text (declarator) to the class object that
  \<^verbatim>\<open>classes\<close> holds under that name.
\<close>

theorem field_declaration_consistency_check:
  assumes "walk (CollectListener lg) events = Inr self"
    and "parse_class_block self header = Inr (class_name, ext, impl)"
    and "map_of (deep_class self) (deep self) = Some cur"
    and "child_text ctx 0 = Inr t" and "child_text ctx 1 = Inr d"
  shows "((\<exists>e. enterFieldDeclaration self ctx (Some header) = Inl e) \<longleftrightarrow>
            class_name \<noteq> c_name (class_objs self ! cur)) \<and>
         (class_name \<noteq> c_name (class_objs self ! cur) \<longrightarrow>
            enterFieldDeclaration self ctx (Some header) =
              Inl (PyException (''Class name is '' @ class_name @ '' is not equal ''
                     @ c_name (class_objs self ! cur)))) \<and>
         (class_name = c_name (class_objs self ! cur) \<longrightarrow>
            (\<exists>r. map_of (a_classes (ast self)) class_name = Some r \<and>
               r < length (class_objs self) \<and> c_name (class_objs self ! r) = class_name \<and>
               enterFieldDeclaration self ctx (Some header) =
                 Inr (self\<lparr>class_objs := (class_objs self)
                        [r := add_field \<lparr>f_type = t, f_define = d\<rparr> (class_objs self ! r)]\<rparr>)))"
proof -
  from reachable_wf[OF assms(1)] have "wf self" by simp
  from wf_class_lookup[OF this assms(3)] obtain r where
    r: "map_of (a_classes (ast self)) (c_name (class_objs self ! cur)) = Some r"
      "r < length (class_objs self)"
      "c_name (class_objs self ! r) = c_name (class_objs self ! cur)" by blast
  have ne: "enterFieldDeclaration self ctx (Some header) =
      Inl (PyException (''Class name is '' @ class_name @ '' is not equal ''
             @ c_name (class_objs self ! cur)))"
    if "class_name \<noteq> c_name (class_objs self ! cur)"
    using that assms(2,3) by (simp add: enterFieldDeclaration_def Let_def)
  have eq: "enterFieldDeclaration self ctx (Some header) =
      Inr (self\<lparr>class_objs := (class_objs self)
             [r := add_field \<lparr>f_type = t, f_define = d\<rparr> (class_objs self ! r)]\<rparr>)"
    if "class_name = c_name (class_objs self ! cur)"
    using that assms(2-5) r(1) by (simp add: enterFieldDeclaration_def Let_def add_field_def)
  from ne eq have iff: "(\<exists>e. enterFieldDeclaration self ctx (Some header) = Inl e) \<longleftrightarrow>
            class_name \<noteq> c_name (class_objs self ! cur)"
    by (cases "class_name = c_name (class_objs self ! cur)") auto
  from r eq have ok: "class_name = c_name (class_objs self ! cur) \<longrightarrow>
            (\<exists>r. map_of (a_classes (ast self)) class_name = Some r \<and>
               r < length (class_objs self) \<and> c_name (class_objs self ! r) = class_name \<and>
               enterFieldDeclaration self ctx (Some header) =
                 Inr (self\<lparr>class_objs := (class_objs self)
                        [r := add_field \<lparr>f_type = t, f_define = d\<rparr> (class_objs self ! r)]\<rparr>))"
    by auto
  from iff ne ok show ?thesis by blast
qed

theorem field_declaration_consistency_check_witness:
  "walk (CollectListener []) [EnterClassDeclaration class_A] = Inr listener_in_A \<and>
   map_of (deep_class listener_in_A) (deep listener_in_A) = Some 0 \<and>
   child_text field_x 0 = Inr ''int'' \<and> child_text field_x 1 = Inr ''x'' \<and>
   parse_class_block listener_in_A class_A = Inr (''A'', [], Str []) \<and>
   ''A'' = c_name (class_objs listener_in_A ! 0) \<and>
   enterFieldDeclaration listener_in_A field_x (Some class_A) =
     Inr (listener_in_A\<lparr>class_objs :=
       [add_field \<lparr>f_type = ''int'', f_define = ''x''\<rparr> (new_JavaClass ''A'' [] (Str []))]\<rparr>) \<and>
   parse_class_block listener_in_A class_B = Inr (''B'', [], Str []) \<and>
   ''B'' \<noteq> c_name (class_objs listener_in_A ! 0) \<and>
   enterFieldDeclaration listener_in_A field_x (Some class_B) =
     Inl (PyException ''Class name is B is not equal A'')"
proof -
  have w: "walk (CollectListener []) [EnterClassDeclaration class_A] = Inr listener_in_A"
    by (simp add: listener_defs tree_defs listener_in_A_def)
  have c: "map_of (deep_class listener_in_A) (deep listener_in_A) = Some 0"
    by (simp add: listener_in_A_def)
  have f: "child_text field_x 0 = Inr ''int''" "child_text field_x 1 = Inr ''x''"
    by (simp_all add: child_text_def getChild_def field_x_def rule_node_def tok_def)
  have pa: "parse_class_block listener_in_A class_A = Inr (''A'', [], Str [])"
    by (simp add: listener_defs tree_defs listener_in_A_def)
  have pb: "parse_class_block listener_in_A class_B = Inr (''B'', [], Str [])"
    by (simp add: listener_defs tree_defs class_B_def listener_in_A_def)
  have na: "''A'' = c_name (class_objs listener_in_A ! 0)"
    and nb: "''B'' \<noteq> c_name (class_objs listener_in_A ! 0)"
    by (simp_all add: listener_in_A_def new_JavaClass_def)
  from field_declaration_consistency_check [OF w pa c f] na
  have "\<exists>r. map_of (a_classes (ast listener_in_A)) ''A'' = Some r \<and>
     enterFieldDeclaration listener_in_A field_x (Some class_A) =
       Inr (listener_in_A\<lparr>class_objs := (class_objs listener_in_A)
          [r := add_field \<lparr>f_type = ''int'', f_define = ''x''\<rparr> (class_objs listener_in_A ! r)]\<rparr>)"
    by blast
  then have ra: "enterFieldDeclaration listener_in_A field_x (Some class_A) =
     Inr (listener_in_A\<lparr>class_objs :=
       [add_field \<lparr>f_type = ''int'', f_define = ''x''\<rparr> (new_JavaClass ''A'' [] (Str []))]\<rparr>)"
    by (auto simp: listener_in_A_def new_JavaClass_def)
  from field_declaration_consistency_check [OF w pb c f] nb
  have "enterFieldDeclaration listener_in_A field_x (Some class_B) =
     Inl (PyException (''Class name is '' @ ''B'' @ '' is not equal ''
            @ c_name (class_objs listener_in_A ! 0)))"
    by blast
  then have rb: "enterFieldDeclaration listener_in_A field_x (Some class_B) =
     Inl (PyException ''Class name is B is not equal A'')"
    by (simp add: listener_in_A_def new_JavaClass_def)
  from w c f pa pb na nb ra rb show ?thesis by simp
qed

lemma walk_two_calls: "walk (CollectListener []) two_calls_stream = Inr listener_two_calls"
  by (simp add: two_calls_stream_def listener_defs tree_defs tree_defs2 listener_two_calls_def
      new_JavaMethod_def add_method_statement_def statement_of_def AList.delete_eq)


section \<open>Pipeline and batch\<close>

lemmas world_defs = process_def create_def main_def is_file_def empty_world_def
  file_generic_def class_generic_def

text \<open>
  Claim C9. When the walk of a file raises, \<^verbatim>\<open>process\<close> (and \<^verbatim>\<open>create\<close>, which calls
  it) raises the same exception and the output files are what they were: the listener
  the handler raised in is not rendered. Whenever \<^verbatim>\<open>process\<close> does change the output
  files, the walk ran to its end and the file written holds the graph of the final
  listener.
\<close>

theorem failed_walk_writes_nothing:
  "(walk (CollectListener (w_log w)) events = Inl (e, self) \<longrightarrow>
      process w events output_path = (Inl e, w\<lparr>w_log := log self\<rparr>) \<and>
      files (snd (process w events output_path)) = files w) \<and>
   (walk (CollectListener (w_log w)) (stream src) = Inl (e, self) \<longrightarrow>
      create w src percent = (Inl e, w\<lparr>w_log := log self\<rparr>) \<and>
      files (snd (create w src percent)) = files w) \<and>
   (files (snd (process w events output_path)) \<noteq> files w \<longrightarrow>
      (\<exists>final p. walk (CollectListener (w_log w)) events = Inr final \<and>
         output_path = Some p \<and>
         process w events output_path =
           (Inr (), w\<lparr>w_log := log final, files := AList.update p (dot final) (files w)\<rparr>)))"
proof (intro conjI impI)
  assume "walk (CollectListener (w_log w)) events = Inl (e, self)"
  then show "process w events output_path = (Inl e, w\<lparr>w_log := log self\<rparr>)"
    and "files (snd (process w events output_path)) = files w"
    by (simp_all add: process_def)
next
  assume "walk (CollectListener (w_log w)) (stream src) = Inl (e, self)"
  then show "create w src percent = (Inl e, w\<lparr>w_log := log self\<rparr>)"
    and "files (snd (create w src percent)) = files w"
    by (simp_all add: create_def process_def)
next
  assume ch: "files (snd (process w events output_path)) \<noteq> files w"
  show "\<exists>final p. walk (CollectListener (w_log w)) events = Inr final \<and>
         output_path = Some p \<and>
         process w events output_path =
           (Inr (), w\<lparr>w_log := log final, files := AList.update p (dot final) (files w)\<rparr>)"
  proof (cases "walk (CollectListener (w_log w)) events")
    case (Inl a)
    with ch show ?thesis by (cases a) (simp add: process_def)
  next
    case (Inr final)
    with ch show ?thesis
      by (cases output_path) (auto simp: process_def split: if_splits)
  qed
qed

theorem failed_walk_writes_nothing_witness:
  "walk (CollectListener (w_log empty_world)) half_built_stream
     = Inl (PyException ''Class name is not found'', listener_A) \<and>
   process empty_world half_built_stream (Some ''/src/H.dot'')
     = (Inl (PyException ''Class name is not found''), empty_world) \<and>
   walk (CollectListener (w_log empty_world)) (stream file_generic)
     = Inl (PyException ''Class name is not found'', CollectListener []) \<and>
   create empty_world file_generic ''1/1''
     = (Inl (PyException ''Class name is not found''), empty_world) \<and>
   files (snd (process empty_world two_calls_stream (Some ''/src/A.dot''))) \<noteq> files empty_world \<and>
   walk (CollectListener (w_log empty_world)) two_calls_stream = Inr listener_two_calls \<and>
   process empty_world two_calls_stream (Some ''/src/A.dot'')
     = (Inr (), empty_world\<lparr>files := [(''/src/A.dot'', dot listener_two_calls)]\<rparr>)"
proof -
  have f: "walk (CollectListener (w_log empty_world)) half_built_stream
     = Inl (PyException ''Class name is not found'', listener_A)"
    by (simp add: half_built_stream_def listener_defs tree_defs class_generic_def
        empty_world_def listener_A_def AList.delete_eq)
  from failed_walk_writes_nothing [of empty_world half_built_stream
      "PyException ''Class name is not found''" listener_A "Some ''/src/H.dot''"] f
  have p: "process empty_world half_built_stream (Some ''/src/H.dot'')
     = (Inl (PyException ''Class name is not found''), empty_world)"
    by (simp add: empty_world_def listener_A_def)
  have h: "walk (CollectListener (w_log empty_world)) (stream file_generic)
     = Inl (PyException ''Class name is not found'', CollectListener [])"
    by (simp add: file_generic_def listener_defs tree_defs class_generic_def empty_world_def)
  from failed_walk_writes_nothing [of empty_world _
      "PyException ''Class name is not found''" "CollectListener []" _ file_generic "''1/1''"] h
  have k: "create empty_world file_generic ''1/1''
     = (Inl (PyException ''Class name is not found''), empty_world)"
    by (simp add: empty_world_def CollectListener_def)
  have g: "walk (CollectListener (w_log empty_world)) two_calls_stream = Inr listener_two_calls"
    by (simp add: empty_world_def walk_two_calls)
  have c: "files (snd (process empty_world two_calls_stream (Some ''/src/A.dot'')))
      \<noteq> files empty_world"
    using g by (simp add: process_def empty_world_def)
  from failed_walk_writes_nothing [of empty_world two_calls_stream _ _ "Some ''/src/A.dot''"] c g
  have q: "process empty_world two_calls_stream (Some ''/src/A.dot'')
     = (Inr (), empty_world\<lparr>files := [(''/src/A.dot'', dot listener_two_calls)]\<rparr>)"
    by (auto simp: empty_world_def listener_two_calls_def)
  from f p h k c g q show ?thesis by simp
qed

text \<open>
  Claim C1. A batch of one file that holds \<^verbatim>\<open>class G<T> {}\<close>: the walk raises at the
  class header, no handler catches the exception, \<^verbatim>\<open>main\<close> ends with it, and the log
  holds no record for the file, neither a failure nor a success; no output file is
  written.
\<close>

theorem batch_with_failing_file_raises_unreported:
  "walk (CollectListener []) (stream file_generic)
     = Inl (PyException ''Class name is not found'', CollectListener []) \<and>
   main empty_world [file_generic]
     = (Inl (PyException ''Class name is not found''), empty_world) \<and>
   w_log (snd (main empty_world [file_generic])) = [] \<and>
   files (snd (main empty_world [file_generic])) = []"
  by (simp add: world_defs listener_defs tree_defs)

section \<open>The rendered text\<close>

lemma dot_statements_eq:
  "dot_statements name sts acc = acc @ map (\<lambda>stmt. edge_line name (s_value stmt)) sts"
  by (induction sts arbitrary: acc) (auto simp: arrow_def edge_line_def)

lemma dot_methods_eq:
  "dot_methods ms name mts acc = acc @ concat (map (render_method ms name) mts)"
  by (induction mts arbitrary: acc)
    (auto simp: dot_statements_eq render_method_def quoted_def arrow_def node_line_def
      edge_line_def)

lemma dot_classes_eq:
  "dot_classes cs ms cls acc = acc @ concat (map (render_class cs ms) cls)"
  by (induction cls arbitrary: acc)
    (auto simp: dot_statements_eq dot_methods_eq render_class_def quoted_def node_line_def)

lemma dot_lines_eq:
  \<open>dot_lines self = ''digraph "callGraph" {'' # render_body self @ [''}'']\<close>
  by (simp add: dot_lines_def render_body_def dot_classes_eq)

lemma join_Cons: "join sep (x # xs) = x @ concat (map (\<lambda>l. sep @ l) xs)"
  by (induction xs arbitrary: x) auto

lemma is_edge_edge_line: "is_edge (edge_line a b)"
  by (simp add: is_edge_def edge_line_def)

lemma not_is_edge_node_line: "\<not> is_edge (node_line a)"
  by (simp add: is_edge_def node_line_def)

lemma edges_statements:
  "filter (is_edge \<circ> (\<lambda>stmt. edge_line name (s_value stmt))) sts = sts"
  by (induction sts) (auto simp: is_edge_edge_line)

lemma edges_method:
  "length (filter is_edge (render_method ms name (method_name, m)))
     = 1 + length (m_statements (ms ! m))"
  by (simp add: render_method_def is_edge_edge_line not_is_edge_node_line edges_statements)

lemma edges_methods:
  "length (filter is_edge (concat (map (render_method ms name) mts)))
     = sum_list (map (\<lambda>(method_name, m). 1 + length (m_statements (ms ! m))) mts)"
  by (induction mts) (auto simp: edges_method)

lemma edges_class:
  "length (filter is_edge (render_class cs ms (name, r)))
     = length (c_statements (cs ! r)) +
       sum_list (map (\<lambda>(method_name, m). 1 + length (m_statements (ms ! m))) (c_methods (cs ! r)))"
  by (simp add: render_class_def not_is_edge_node_line edges_statements edges_methods)

lemma edges_classes:
  "length (filter is_edge (concat (map (render_class cs ms) cls)))
     = sum_list (map (\<lambda>(name, r). length (c_statements (cs ! r)) +
         sum_list (map (\<lambda>(method_name, m). 1 + length (m_statements (ms ! m)))
           (c_methods (cs ! r)))) cls)"
  by (induction cls) (auto simp: edges_class)

text \<open>
  Claim C8. The rendered text is \<open>render_text\<close>: the line \<^verbatim>\<open>digraph "callGraph" {\<close>,
  then, each on a new line, per class in recorded order its node line, one edge line
  per statement of the class, and per method in recorded order a node line, the edge
  from the class to the method and one edge line per statement of the method, and the
  closing brace. Nothing is merged: the number of edge lines the renderer collects is
  the number of recorded class statements, methods and method statements.
\<close>

theorem dot_renders_recorded_model:
  "dot self = render_text self \<and>
   length (filter is_edge (dot_lines self)) = recorded_edges self"
proof
  show "dot self = render_text self"
    by (simp add: dot_def dot_lines_eq join_Cons render_text_def)
  have "\<not> is_edge ''}''" by (simp add: is_edge_def)
  moreover have \<open>\<not> is_edge ''digraph "callGraph" {''\<close> by (simp add: is_edge_def)
  ultimately show "length (filter is_edge (dot_lines self)) = recorded_edges self"
    by (simp add: dot_lines_eq render_body_def recorded_edges_def edges_classes)
qed

theorem dot_renders_recorded_model_witness:
  \<open>dot listener_two_calls =
     ''digraph "callGraph" {\<newline>"A"\<newline>"m"\<newline>"A" -> "m";\<newline>"m" -> "foo";\<newline>"m" -> "foo";\<newline>}'' \<and>
   length (filter is_edge (dot_lines listener_two_calls)) = 3\<close>
proof -
  have r: \<open>render_text listener_two_calls =
     ''digraph "callGraph" {\<newline>"A"\<newline>"m"\<newline>"A" -> "m";\<newline>"m" -> "foo";\<newline>"m" -> "foo";\<newline>}''\<close>
    by (simp add: render_text_def render_body_def render_class_def render_method_def
        listener_two_calls_def new_JavaClass_def new_JavaMethod_def add_method_statement_def
        statement_of_def node_line_def edge_line_def)
  have e: "recorded_edges listener_two_calls = 3"
    by (simp add: recorded_edges_def listener_two_calls_def
        new_JavaClass_def new_JavaMethod_def add_method_statement_def statement_of_def)
  from dot_renders_recorded_model [of listener_two_calls] r e show ?thesis
    by simp
qed

section \<open>Two declarations of one method name\<close>






lemma walk_append:
  "walk s (xs @ ys) = (case walk s xs of Inl e \<Rightarrow> Inl e | Inr s' \<Rightarrow> walk s' ys)"
  by (induction xs arbitrary: s) (auto split: sum.splits)
















end
